theory Spec2Isabelle
  imports Complex_Main "HOL-Library.Sublist"
begin

section \<open>Quality-control filtering of a single-cell count matrix\<close>

text \<open>
  The development follows \<^verbatim>\<open>bin/filtering-basic.py\<close>, function \<^verbatim>\<open>initialFiltering\<close>.
  The annotated matrix is kept as the program keeps it: a cell-by-gene matrix, the cell
  identifiers, the gene identifiers, and the annotation columns that the program adds.

  Counts are exact rationals. The program holds them in binary floating point; sums of
  counts are taken without rounding here, and the three results that a division of two
  sums can have besides a finite number (both infinities and NaN) are values of their
  own, so that a division by a zero total is a branch of the model.
\<close>

subsection \<open>Numbers\<close>

datatype npfloat = Fin rat | PosInf | NegInf | NaN

text \<open>Element-wise \<^verbatim>\<open>a / b\<close> of two finite numbers: no exception, IEEE results.\<close>

definition np_div :: "rat \<Rightarrow> rat \<Rightarrow> npfloat" where
  "np_div a b =
     (if b \<noteq> 0 then Fin (a / b)
      else if a = 0 then NaN
      else if 0 < a then PosInf
      else NegInf)"

text \<open>\<^verbatim>\<open>x < y\<close>: every comparison with NaN is false.\<close>

fun np_less :: "npfloat \<Rightarrow> npfloat \<Rightarrow> bool" where
  "np_less NaN y = False"
| "np_less x NaN = False"
| "np_less (Fin a) (Fin b) = (a < b)"
| "np_less (Fin a) PosInf = True"
| "np_less (Fin a) NegInf = False"
| "np_less NegInf NegInf = False"
| "np_less NegInf y = True"
| "np_less PosInf y = False"

subsection \<open>The annotated matrix\<close>

datatype error = ValueError | KeyError

record anndata =
  X :: "rat list list"
  obs_names :: "string list"
  var_names :: "string list"
  obs_n_genes :: "nat list option"
  obs_percent_mito :: "npfloat list option"
  obs_n_counts :: "rat list option"
  var_n_cells :: "nat list option"

record args =
  thr_min_genes :: int
  thr_min_cells :: int
  thr_n_genes :: int
  thr_pct_mito :: npfloat

text \<open>The shape of the matrix agrees with both identifier sequences, and every
  annotation column that is present has one entry per cell (per gene).\<close>

definition wf_anndata :: "anndata \<Rightarrow> bool" where
  "wf_anndata a =
     (length (X a) = length (obs_names a) \<and>
      list_all (\<lambda>r. length r = length (var_names a)) (X a) \<and>
      (case obs_n_genes a of None \<Rightarrow> True | Some c \<Rightarrow> length c = length (obs_names a)) \<and>
      (case obs_percent_mito a of None \<Rightarrow> True | Some c \<Rightarrow> length c = length (obs_names a)) \<and>
      (case obs_n_counts a of None \<Rightarrow> True | Some c \<Rightarrow> length c = length (obs_names a)) \<and>
      (case var_n_cells a of None \<Rightarrow> True | Some c \<Rightarrow> length c = length (var_names a)))"

text \<open>Counts are non-negative.\<close>

definition nonneg_counts :: "anndata \<Rightarrow> bool" where
  "nonneg_counts a = list_all (list_all (\<lambda>x. 0 \<le> x)) (X a)"

subsection \<open>Array operations\<close>

text \<open>Indexing with a boolean mask keeps the positions where the mask is true.\<close>

definition mask_list :: "bool list \<Rightarrow> 'a list \<Rightarrow> 'a list" where
  "mask_list m xs = map snd (filter fst (zip m xs))"

text \<open>\<^verbatim>\<open>M > 0\<close> followed by a sum counts the positive entries.\<close>

definition count_pos :: "rat list \<Rightarrow> nat" where
  "count_pos r = length (filter (\<lambda>x. 0 < x) r)"

definition column :: "'a list list \<Rightarrow> nat \<Rightarrow> 'a list" where
  "column M j = map (\<lambda>r. r ! j) M"

text \<open>\<^verbatim>\<open>M.transpose()\<close> of a matrix with \<open>n\<close> columns.\<close>

definition transpose_m :: "nat \<Rightarrow> 'a list list \<Rightarrow> 'a list list" where
  "transpose_m n M = map (column M) [0..<n]"

text \<open>\<^verbatim>\<open>np.sum(M, axis=0)\<close> of a matrix with \<open>n\<close> columns, and \<^verbatim>\<open>np.sum(M > 0, axis=0)\<close>.\<close>

definition sum_axis0 :: "nat \<Rightarrow> rat list list \<Rightarrow> rat list" where
  "sum_axis0 n M = map (\<lambda>j. sum_list (column M j)) [0..<n]"

definition count_pos_axis0 :: "nat \<Rightarrow> rat list list \<Rightarrow> nat list" where
  "count_pos_axis0 n M = map (\<lambda>j. count_pos (column M j)) [0..<n]"

text \<open>\<^verbatim>\<open>np.sum(M, axis=1)\<close>.\<close>

definition sum_axis1 :: "rat list list \<Rightarrow> rat list" where
  "sum_axis1 M = map sum_list M"

text \<open>\<^verbatim>\<open>adata[mask, :]\<close>: the rows, the cell identifiers and every per-cell column.\<close>

definition subset_obs :: "bool list \<Rightarrow> anndata \<Rightarrow> anndata" where
  "subset_obs m a =
     a\<lparr>X := mask_list m (X a),
       obs_names := mask_list m (obs_names a),
       obs_n_genes := map_option (mask_list m) (obs_n_genes a),
       obs_percent_mito := map_option (mask_list m) (obs_percent_mito a),
       obs_n_counts := map_option (mask_list m) (obs_n_counts a)\<rparr>"

text \<open>\<^verbatim>\<open>adata[:, mask]\<close>: the columns, the gene identifiers and every per-gene column.\<close>

definition subset_var :: "bool list \<Rightarrow> anndata \<Rightarrow> anndata" where
  "subset_var m a =
     a\<lparr>X := map (mask_list m) (X a),
       var_names := mask_list m (var_names a),
       var_n_cells := map_option (mask_list m) (var_n_cells a)\<rparr>"

text \<open>\<^verbatim>\<open>str.startswith\<close>: the second argument is the prefix.\<close>

fun startswith :: "string \<Rightarrow> string \<Rightarrow> bool" where
  "startswith s [] = True"
| "startswith [] (p # ps) = False"
| "startswith (c # cs) (p # ps) = (c = p \<and> startswith cs ps)"

subsection \<open>The two library filters\<close>

text \<open>
  Modelled from the spec: \<^verbatim>\<open>sc.pp.filter_cells\<close> is a function of the scanpy library,
  whose body is not part of the repository. Called with \<^verbatim>\<open>min_genes\<close> it keeps the
  cells with genes-detected \<open>\<ge>\<close> the threshold, in place on the matrix and the per-cell
  annotations, and leaves the statistic as the column \<^verbatim>\<open>n_genes\<close>, which is where
  line 74 of the program reads it from. An entry is detected when it is \<open>> 0\<close>, as in
  the program's own lines 37 and 84.
\<close>

definition filter_cells :: "int \<Rightarrow> anndata \<Rightarrow> anndata" where
  "filter_cells min_genes a =
     (let number = map count_pos (X a);
          cell_subset = map (\<lambda>n. min_genes \<le> int n) number
      in subset_obs cell_subset (a\<lparr>obs_n_genes := Some number\<rparr>))"

text \<open>
  Modelled from the spec: \<^verbatim>\<open>sc.pp.filter_genes\<close> is a function of the scanpy library,
  whose body is not part of the repository. Called with \<^verbatim>\<open>min_cells\<close> it keeps the
  genes with cells-detected \<open>\<ge>\<close> the threshold, counted over the cells that are in the
  matrix at the call, in place on the matrix and the per-gene annotations, and leaves the
  statistic as the column \<^verbatim>\<open>n_cells\<close>.
\<close>

definition filter_genes :: "int \<Rightarrow> anndata \<Rightarrow> anndata" where
  "filter_genes min_cells a =
     (let number = count_pos_axis0 (length (var_names a)) (X a);
          gene_subset = map (\<lambda>n. min_cells \<le> int n) number
      in subset_var gene_subset (a\<lparr>var_n_cells := Some number\<rparr>))"

subsection \<open>The program\<close>

text \<open>Lines 59 to 64: the mask of mitochondrial genes, the fraction of counts in
  them, and the total counts, stored as per-cell columns.\<close>

definition mito_genes :: "anndata \<Rightarrow> bool list" where
  "mito_genes a = map (\<lambda>g. startswith g ''MT-'') (var_names a)"

definition percent_mito :: "bool list \<Rightarrow> rat list \<Rightarrow> npfloat" where
  "percent_mito m r = np_div (sum_list (mask_list m r)) (sum_list r)"

definition mito_stats :: "anndata \<Rightarrow> anndata" where
  "mito_stats a =
     a\<lparr>obs_percent_mito := Some (map (percent_mito (mito_genes a)) (X a)),
       obs_n_counts := Some (sum_axis1 (X a))\<rparr>"

text \<open>Lines 74 and 75: a column that is not there raises \<^verbatim>\<open>KeyError\<close>.\<close>

definition cut_n_genes :: "int \<Rightarrow> anndata \<Rightarrow> error + anndata" where
  "cut_n_genes thr a =
     (case obs_n_genes a of
        None \<Rightarrow> Inl KeyError
      | Some c \<Rightarrow> Inr (subset_obs (map (\<lambda>n. int n < thr) c) a))"

definition cut_pct_mito :: "npfloat \<Rightarrow> anndata \<Rightarrow> error + anndata" where
  "cut_pct_mito thr a =
     (case obs_percent_mito a of
        None \<Rightarrow> Inl KeyError
      | Some c \<Rightarrow> Inr (subset_obs (map (\<lambda>p. np_less p thr) c) a))"

text \<open>Lines 54 to 75 in their order. The plots in between read the matrix and
  change nothing.\<close>

definition filter_engine :: "args \<Rightarrow> anndata \<Rightarrow> error + anndata" where
  "filter_engine ar a =
     (let a1 = filter_cells (thr_min_genes ar) a;
          a2 = filter_genes (thr_min_cells ar) a1;
          a3 = mito_stats a2
      in case cut_n_genes (thr_n_genes ar) a3 of
           Inl e \<Rightarrow> Inl e
         | Inr a4 \<Rightarrow> cut_pct_mito (thr_pct_mito ar) a4)"

text \<open>Lines 79 to 88: what is handed to \<^verbatim>\<open>lp.create\<close>. The matrix is transposed
  to gene by cell; the two per-cell attributes are sums along axis 0 of the transposed
  matrix.\<close>

record loom =
  matrix :: "rat list list"
  Gene :: "string list"
  CellID :: "string list"
  nGene :: "nat list"
  nUMI :: "rat list"

definition writer :: "anndata \<Rightarrow> loom" where
  "writer a =
     (let t = transpose_m (length (var_names a)) (X a)
      in \<lparr>matrix = t,
          Gene = var_names a,
          CellID = obs_names a,
          nGene = count_pos_axis0 (length (obs_names a)) t,
          nUMI = sum_axis0 (length (obs_names a)) t\<rparr>)"

text \<open>The whole function. Lines 40 and 41 take the minimum over the genes, which
  raises \<^verbatim>\<open>ValueError\<close> when there is no gene.\<close>

definition initialFiltering :: "args \<Rightarrow> anndata \<Rightarrow> error + loom" where
  "initialFiltering ar a =
     (if var_names a = [] then Inl ValueError
      else case filter_engine ar a of
             Inl e \<Rightarrow> Inl e
           | Inr b \<Rightarrow> Inr (writer b))"

subsection \<open>The pipeline by indices\<close>

text \<open>For the proofs, the result of every step is described by the positions of the
  input matrix that are still there: the cells after the first cut, the genes after the
  second, the statistics of a cell over the genes that are left, and the cells after the
  last two cuts.\<close>

definition cells1 :: "args \<Rightarrow> anndata \<Rightarrow> nat list" where
  "cells1 ar a =
     filter (\<lambda>i. thr_min_genes ar \<le> int (count_pos (X a ! i))) [0..<length (X a)]"

definition n_cells_of :: "args \<Rightarrow> anndata \<Rightarrow> nat \<Rightarrow> nat" where
  "n_cells_of ar a j = count_pos (map (\<lambda>i. X a ! i ! j) (cells1 ar a))"

definition genes2 :: "args \<Rightarrow> anndata \<Rightarrow> nat list" where
  "genes2 ar a =
     filter (\<lambda>j. thr_min_cells ar \<le> int (n_cells_of ar a j)) [0..<length (var_names a)]"

definition row2 :: "args \<Rightarrow> anndata \<Rightarrow> nat \<Rightarrow> rat list" where
  "row2 ar a i = map (\<lambda>j. X a ! i ! j) (genes2 ar a)"

definition mito2 :: "args \<Rightarrow> anndata \<Rightarrow> nat \<Rightarrow> rat list" where
  "mito2 ar a i =
     map (\<lambda>j. X a ! i ! j) (filter (\<lambda>j. startswith (var_names a ! j) ''MT-'') (genes2 ar a))"

definition frac2 :: "args \<Rightarrow> anndata \<Rightarrow> nat \<Rightarrow> npfloat" where
  "frac2 ar a i = np_div (sum_list (mito2 ar a i)) (sum_list (row2 ar a i))"

definition cells4 :: "args \<Rightarrow> anndata \<Rightarrow> nat list" where
  "cells4 ar a = filter (\<lambda>i. int (count_pos (X a ! i)) < thr_n_genes ar) (cells1 ar a)"

definition cells5 :: "args \<Rightarrow> anndata \<Rightarrow> nat list" where
  "cells5 ar a = filter (\<lambda>i. np_less (frac2 ar a i) (thr_pct_mito ar)) (cells4 ar a)"

definition view :: "args \<Rightarrow> anndata \<Rightarrow> nat list \<Rightarrow> anndata" where
  "view ar a is =
     \<lparr>X = map (row2 ar a) is,
      obs_names = map ((!) (obs_names a)) is,
      var_names = map ((!) (var_names a)) (genes2 ar a),
      obs_n_genes = Some (map (\<lambda>i. count_pos (X a ! i)) is),
      obs_percent_mito = Some (map (frac2 ar a) is),
      obs_n_counts = Some (map (\<lambda>i. sum_list (row2 ar a i)) is),
      var_n_cells = Some (map (n_cells_of ar a) (genes2 ar a))\<rparr>"


subsection \<open>The filter engine as the specification words it\<close>

text \<open>The five steps of the specification, each as the positions of the input matrix
  that it keeps. Genes-detected of a cell and cells-detected of a gene count the nonzero
  entries; a gene is mitochondrial when its identifier begins with the three characters
  \<open>MT-\<close>.\<close>

definition spec_genes_detected :: "rat list \<Rightarrow> nat" where
  "spec_genes_detected r = length (filter (\<lambda>x. x \<noteq> 0) r)"

definition spec_step1 :: "args \<Rightarrow> anndata \<Rightarrow> nat list" where
  "spec_step1 ar a =
     filter (\<lambda>i. thr_min_genes ar \<le> int (spec_genes_detected (X a ! i))) [0..<length (X a)]"

definition spec_cells_detected :: "args \<Rightarrow> anndata \<Rightarrow> nat \<Rightarrow> nat" where
  "spec_cells_detected ar a j = length (filter (\<lambda>i. X a ! i ! j \<noteq> 0) (spec_step1 ar a))"

definition spec_step2 :: "args \<Rightarrow> anndata \<Rightarrow> nat list" where
  "spec_step2 ar a =
     filter (\<lambda>j. thr_min_cells ar \<le> int (spec_cells_detected ar a j)) [0..<length (var_names a)]"

definition spec_total_counts :: "args \<Rightarrow> anndata \<Rightarrow> nat \<Rightarrow> rat" where
  "spec_total_counts ar a i = (\<Sum>j\<leftarrow>spec_step2 ar a. X a ! i ! j)"

definition spec_mito_fraction :: "args \<Rightarrow> anndata \<Rightarrow> nat \<Rightarrow> npfloat" where
  "spec_mito_fraction ar a i =
     np_div (\<Sum>j\<leftarrow>filter (\<lambda>j. take 3 (var_names a ! j) = ''MT-'') (spec_step2 ar a). X a ! i ! j)
       (spec_total_counts ar a i)"

definition spec_step4 :: "args \<Rightarrow> anndata \<Rightarrow> nat list" where
  "spec_step4 ar a =
     filter (\<lambda>i. int (spec_genes_detected (X a ! i)) < thr_n_genes ar) (spec_step1 ar a)"

definition spec_step5 :: "args \<Rightarrow> anndata \<Rightarrow> nat list" where
  "spec_step5 ar a =
     filter (\<lambda>i. np_less (spec_mito_fraction ar a i) (thr_pct_mito ar)) (spec_step4 ar a)"

definition spec_filter_engine :: "args \<Rightarrow> anndata \<Rightarrow> anndata" where
  "spec_filter_engine ar a =
     \<lparr>X = map (\<lambda>i. map (\<lambda>j. X a ! i ! j) (spec_step2 ar a)) (spec_step5 ar a),
      obs_names = map (\<lambda>i. obs_names a ! i) (spec_step5 ar a),
      var_names = map (\<lambda>j. var_names a ! j) (spec_step2 ar a),
      obs_n_genes = Some (map (\<lambda>i. spec_genes_detected (X a ! i)) (spec_step5 ar a)),
      obs_percent_mito = Some (map (spec_mito_fraction ar a) (spec_step5 ar a)),
      obs_n_counts = Some (map (spec_total_counts ar a) (spec_step5 ar a)),
      var_n_cells = Some (map (spec_cells_detected ar a) (spec_step2 ar a))\<rparr>"

text \<open>The counts of a cell in the genes whose identifier begins with \<open>MT-\<close>.\<close>

definition spec_mito_counts :: "string list \<Rightarrow> rat list \<Rightarrow> rat" where
  "spec_mito_counts names r =
     (\<Sum>k\<leftarrow>[0..<length names]. if take 3 (names ! k) = ''MT-'' then r ! k else 0)"

text \<open>One state of the pipeline is narrower than another when its cell identifiers and
  its gene identifiers are among the other's and it has no more rows and columns.\<close>

definition narrower :: "anndata \<Rightarrow> anndata \<Rightarrow> bool" where
  "narrower s t =
     (set (obs_names t) \<subseteq> set (obs_names s) \<and>
      set (var_names t) \<subseteq> set (var_names s) \<and>
      length (obs_names t) \<le> length (obs_names s) \<and>
      length (X t) \<le> length (X s) \<and>
      length (var_names t) \<le> length (var_names s))"

subsection \<open>Small data sets\<close>

text \<open>Five cells and four genes. The third cell has one detected gene, the fifth has
  four; \<open>XIST\<close> is detected in two of the cells that have at least two genes.\<close>

definition example_adata :: anndata where
  "example_adata =
     \<lparr>X = [[4, 1, 0, 2], [6, 0, 1, 0], [0, 0, 0, 3], [1, 2, 0, 5], [1, 1, 1, 1]],
      obs_names = [''c1'', ''c2'', ''c3'', ''c4'', ''c5''],
      var_names = [''MT-CO1'', ''ACTB'', ''XIST'', ''GAPDH''],
      obs_n_genes = None, obs_percent_mito = None, obs_n_counts = None,
      var_n_cells = None\<rparr>"

definition example_args :: args where
  "example_args =
     \<lparr>thr_min_genes = 2, thr_min_cells = 3, thr_n_genes = 4, thr_pct_mito = Fin (1 / 2)\<rparr>"

text \<open>The thresholds above leave the fourth cell and three genes.\<close>

definition example_result :: anndata where
  "example_result =
     \<lparr>X = [[1, 2, 5]], obs_names = [''c4''],
      var_names = [''MT-CO1'', ''ACTB'', ''GAPDH''],
      obs_n_genes = Some [3], obs_percent_mito = Some [Fin (1 / 8)],
      obs_n_counts = Some [8], var_n_cells = Some [4, 3, 3]\<rparr>"

definition example_loom :: loom where
  "example_loom =
     \<lparr>matrix = [[1], [2], [5]], Gene = [''MT-CO1'', ''ACTB'', ''GAPDH''],
      CellID = [''c4''], nGene = [3], nUMI = [8]\<rparr>"

text \<open>The third cell has counts in one gene only, and no other cell has counts in
  that gene.\<close>

definition example_zero :: anndata where
  "example_zero =
     \<lparr>X = [[1, 3, 0], [0, 2, 0], [0, 0, 7], [2, 1, 0]],
      obs_names = [''c1'', ''c2'', ''c3'', ''c4''],
      var_names = [''MT-CO1'', ''ACTB'', ''RARE''],
      obs_n_genes = None, obs_percent_mito = None, obs_n_counts = None,
      var_n_cells = None\<rparr>"

definition example_zero_args :: args where
  "example_zero_args =
     \<lparr>thr_min_genes = 1, thr_min_cells = 2, thr_n_genes = 10, thr_pct_mito = Fin 1\<rparr>"

definition example_zero_result :: anndata where
  "example_zero_result =
     \<lparr>X = [[1, 3], [0, 2], [2, 1]],
      obs_names = [''c1'', ''c2'', ''c4''],
      var_names = [''MT-CO1'', ''ACTB''],
      obs_n_genes = Some [2, 1, 2],
      obs_percent_mito = Some [Fin (1 / 4), Fin 0, Fin (2 / 3)],
      obs_n_counts = Some [4, 2, 3], var_n_cells = Some [2, 3]\<rparr>"

text \<open>Five cells after the first two cuts, with \<open>MT-CO1\<close> as the only mitochondrial
  gene.\<close>

definition example_scenario :: anndata where
  "example_scenario =
     \<lparr>X = [[10, 10], [0, 5], [0, 5], [0, 5], [0, 5]],
      obs_names = [''c1'', ''c2'', ''c3'', ''c4'', ''c5''],
      var_names = [''MT-CO1'', ''ACTB''],
      obs_n_genes = Some [2, 1, 1, 1, 1], obs_percent_mito = None, obs_n_counts = None,
      var_n_cells = Some [1, 5]\<rparr>"

text \<open>Gene identifiers that differ from the prefix in case only.\<close>

definition example_case :: anndata where
  "example_case =
     \<lparr>X = [[3, 4, 5, 6]],
      obs_names = [''c1''],
      var_names = [''MT-CO1'', ''mt-Co1'', ''Mt-nd1'', ''ACTB''],
      obs_n_genes = None, obs_percent_mito = None, obs_n_counts = None,
      var_n_cells = None\<rparr>"

text \<open>Three cells, each with at least two detected genes, and two genes that are
  detected in one cell each; then the result of one run of the filter engine, of a
  second run on that result, and what the program writes for the input.\<close>

definition idem_args :: args where
  "idem_args =
     \<lparr>thr_min_genes = 2, thr_min_cells = 2, thr_n_genes = 10, thr_pct_mito = Fin (1 / 4)\<rparr>"

definition idem_input :: anndata where
  "idem_input =
     \<lparr>X = [[1, 1, 1, 0], [1, 1, 0, 0], [0, 1, 0, 1]],
      obs_names = [''c1'', ''c2'', ''c3''],
      var_names = [''A'', ''B'', ''C'', ''D''],
      obs_n_genes = None, obs_percent_mito = None, obs_n_counts = None,
      var_n_cells = None\<rparr>"

definition idem_once :: anndata where
  "idem_once =
     \<lparr>X = [[1, 1], [1, 1], [0, 1]],
      obs_names = [''c1'', ''c2'', ''c3''],
      var_names = [''A'', ''B''],
      obs_n_genes = Some [3, 2, 2], obs_percent_mito = Some [Fin 0, Fin 0, Fin 0],
      obs_n_counts = Some [2, 2, 1], var_n_cells = Some [2, 3]\<rparr>"

definition idem_twice :: anndata where
  "idem_twice =
     \<lparr>X = [[1, 1], [1, 1]],
      obs_names = [''c1'', ''c2''],
      var_names = [''A'', ''B''],
      obs_n_genes = Some [2, 2], obs_percent_mito = Some [Fin 0, Fin 0],
      obs_n_counts = Some [2, 2], var_n_cells = Some [2, 2]\<rparr>"

definition idem_loom :: loom where
  "idem_loom =
     \<lparr>matrix = [[1, 1, 0], [1, 1, 1]], Gene = [''A'', ''B''],
      CellID = [''c1'', ''c2'', ''c3''], nGene = [2, 2, 1], nUMI = [2, 2, 1]\<rparr>"

section \<open>Properties\<close>

subsection \<open>Masks\<close>

lemma mask_list_Nil [simp]: "mask_list m [] = []" "mask_list [] xs = []"
  by (simp_all add: mask_list_def)

lemma mask_list_Cons [simp]:
  "mask_list (b # m) (x # xs) = (if b then x # mask_list m xs else mask_list m xs)"
  by (simp add: mask_list_def)

lemma mask_list_map: "mask_list (map p xs) (map h xs) = map h (filter p xs)"
  by (induction xs) simp_all

lemma mask_list_map_id: "mask_list (map p xs) xs = filter p xs"
  using mask_list_map [of p xs "\<lambda>x. x"] by simp

lemma mask_list_map2: "mask_list (map p (map g xs)) (map h xs) = map h (filter (\<lambda>x. p (g x)) xs)"
  using mask_list_map [of "\<lambda>x. p (g x)" xs h] by (simp add: comp_def)

lemma mask_list_upt:
  assumes "length xs = n"
  shows "mask_list (map p [0..<n]) xs = map ((!) xs) (filter p [0..<n])"
proof -
  have "xs = map ((!) xs) [0..<n]"
    using assms by (intro nth_equalityI) simp_all
  then have "mask_list (map p [0..<n]) xs = mask_list (map p [0..<n]) (map ((!) xs) [0..<n])"
    by simp
  then show ?thesis
    by (simp only: mask_list_map)
qed

lemma map_by_index: "map f xs = map (\<lambda>i. f (xs ! i)) [0..<length xs]"
  by (rule nth_equalityI) simp_all

lemma subseq_mask_list: "subseq (mask_list m xs) xs"
proof (induction xs arbitrary: m)
  case Nil
  show ?case by simp
next
  case (Cons x xs)
  show ?case
  proof (cases m)
    case Nil
    then show ?thesis by simp
  next
    case (Cons b m')
    have "subseq (mask_list m' xs) xs" by (rule Cons.IH)
    then show ?thesis using Cons by auto
  qed
qed

lemma length_mask_list: "length (mask_list m xs) \<le> length xs"
  using subseq_mask_list [of m xs] by (rule list_emb_length)

lemma set_mask_list: "set (mask_list m xs) \<subseteq> set xs"
  using subseq_mask_list [of m xs] by (auto dest: list_emb_set)

lemma mask_by_index:
  assumes "length ys = length xs"
  shows "mask_list (map p xs) ys = map ((!) ys) (filter (\<lambda>i. p (xs ! i)) [0..<length xs])"
proof -
  have eq: "map p xs = map (\<lambda>i. p (xs ! i)) [0..<length xs]"
    by (rule map_by_index)
  show ?thesis
    unfolding eq by (rule mask_list_upt) (rule assms)
qed

subsection \<open>The filter engine by indices\<close>

lemma wf_row_length:
  "wf_anndata a \<Longrightarrow> i < length (X a) \<Longrightarrow> length (X a ! i) = length (var_names a)"
  by (simp add: wf_anndata_def list_all_length)

lemma cells1_bound: "i \<in> set (cells1 ar a) \<Longrightarrow> i < length (X a)"
  by (simp add: cells1_def)

lemma X_filter_cells:
  "X (filter_cells (thr_min_genes ar) a) = map ((!) (X a)) (cells1 ar a)"
  by (simp add: filter_cells_def Let_def subset_obs_def cells1_def mask_by_index)

lemma obs_names_filter_cells:
  "length (obs_names a) = length (X a) \<Longrightarrow>
   obs_names (filter_cells (thr_min_genes ar) a) = map ((!) (obs_names a)) (cells1 ar a)"
  by (simp add: filter_cells_def Let_def subset_obs_def cells1_def mask_by_index)

lemma obs_n_genes_filter_cells:
  "obs_n_genes (filter_cells (thr_min_genes ar) a)
   = Some (map (\<lambda>i. count_pos (X a ! i)) (cells1 ar a))"
proof -
  have "mask_list (map (\<lambda>r. thr_min_genes ar \<le> int (count_pos r)) (X a)) (map count_pos (X a))
        = map count_pos (filter (\<lambda>r. thr_min_genes ar \<le> int (count_pos r)) (X a))"
    by (rule mask_list_map)
  also have "filter (\<lambda>r. thr_min_genes ar \<le> int (count_pos r)) (X a)
        = map ((!) (X a)) (cells1 ar a)"
    using mask_by_index [of "X a" "X a" "\<lambda>r. thr_min_genes ar \<le> int (count_pos r)"]
    by (simp add: mask_list_map_id cells1_def)
  finally show ?thesis
    by (simp add: filter_cells_def Let_def subset_obs_def comp_def)
qed

lemma var_names_filter_cells: "var_names (filter_cells t a) = var_names a"
  by (simp add: filter_cells_def Let_def subset_obs_def)

lemma column_filter_cells:
  "column (X (filter_cells (thr_min_genes ar) a)) j = map (\<lambda>i. X a ! i ! j) (cells1 ar a)"
  by (simp add: column_def X_filter_cells)

lemma gene_mask:
  "map (\<lambda>n. thr_min_cells ar \<le> int n)
     (count_pos_axis0 (length (var_names a)) (X (filter_cells (thr_min_genes ar) a)))
   = map (\<lambda>j. thr_min_cells ar \<le> int (n_cells_of ar a j)) [0..<length (var_names a)]"
  by (simp add: count_pos_axis0_def column_filter_cells n_cells_of_def)

lemma mask_row_genes2:
  assumes "length r = length (var_names a)"
  shows "mask_list (map (\<lambda>j. thr_min_cells ar \<le> int (n_cells_of ar a j)) [0..<length (var_names a)]) r
         = map ((!) r) (genes2 ar a)"
  unfolding genes2_def by (rule mask_list_upt) (rule assms)

lemma X_filter_genes:
  assumes "wf_anndata a"
  shows "X (filter_genes (thr_min_cells ar) (filter_cells (thr_min_genes ar) a))
         = map (row2 ar a) (cells1 ar a)"
proof -
  let ?m = "map (\<lambda>j. thr_min_cells ar \<le> int (n_cells_of ar a j)) [0..<length (var_names a)]"
  have row: "mask_list ?m (X a ! i) = row2 ar a i" if "i \<in> set (cells1 ar a)" for i
    using that assms by (simp add: mask_row_genes2 wf_row_length cells1_bound row2_def)
  have "X (filter_genes (thr_min_cells ar) (filter_cells (thr_min_genes ar) a))
        = map (mask_list ?m) (X (filter_cells (thr_min_genes ar) a))"
    by (simp add: filter_genes_def Let_def subset_var_def var_names_filter_cells gene_mask)
  also have "\<dots> = map (mask_list ?m) (map ((!) (X a)) (cells1 ar a))"
    by (simp only: X_filter_cells)
  also have "\<dots> = map (row2 ar a) (cells1 ar a)"
    using row by simp
  finally show ?thesis .
qed

lemma var_names_filter_genes:
  "var_names (filter_genes (thr_min_cells ar) (filter_cells (thr_min_genes ar) a))
   = map ((!) (var_names a)) (genes2 ar a)"
  by (simp add: filter_genes_def Let_def subset_var_def var_names_filter_cells gene_mask
      genes2_def mask_list_upt)

lemma var_n_cells_filter_genes:
  "var_n_cells (filter_genes (thr_min_cells ar) (filter_cells (thr_min_genes ar) a))
   = Some (map (n_cells_of ar a) (genes2 ar a))"
proof -
  have "count_pos_axis0 (length (var_names a)) (X (filter_cells (thr_min_genes ar) a))
        = map (n_cells_of ar a) [0..<length (var_names a)]"
    by (simp add: count_pos_axis0_def column_filter_cells n_cells_of_def)
  then show ?thesis
    using mask_list_map [of "\<lambda>j. thr_min_cells ar \<le> int (n_cells_of ar a j)"
        "[0..<length (var_names a)]" "n_cells_of ar a"]
    by (simp add: filter_genes_def Let_def subset_var_def var_names_filter_cells genes2_def
        comp_def)
qed

lemma obs_filter_genes:
  "obs_names (filter_genes t b) = obs_names b"
  "obs_n_genes (filter_genes t b) = obs_n_genes b"
  by (simp_all add: filter_genes_def Let_def subset_var_def)

lemma percent_mito_row2:
  "percent_mito (map (\<lambda>j. startswith (var_names a ! j) ''MT-'') (genes2 ar a))
     (row2 ar a i) = frac2 ar a i"
  by (simp add: percent_mito_def frac2_def mito2_def row2_def mask_list_map)

lemma stats_view:
  assumes "wf_anndata a"
  shows "mito_stats (filter_genes (thr_min_cells ar) (filter_cells (thr_min_genes ar) a))
         = view ar a (cells1 ar a)"
proof -
  have len: "length (obs_names a) = length (X a)"
    using assms by (simp add: wf_anndata_def)
  show ?thesis
    by (rule anndata.equality)
      (simp_all add: mito_stats_def view_def mito_genes_def sum_axis1_def
        X_filter_genes [OF assms] var_names_filter_genes var_n_cells_filter_genes
        obs_filter_genes obs_names_filter_cells [OF len] obs_n_genes_filter_cells
        percent_mito_row2 comp_def)
qed

lemma cut_n_genes_view:
  "cut_n_genes thr (view ar a is)
   = Inr (view ar a (filter (\<lambda>i. int (count_pos (X a ! i)) < thr) is))"
  by (simp add: cut_n_genes_def view_def subset_obs_def mask_list_map2 mask_list_map comp_def)

lemma cut_pct_mito_view:
  "cut_pct_mito thr (view ar a is)
   = Inr (view ar a (filter (\<lambda>i. np_less (frac2 ar a i) thr) is))"
  by (simp add: cut_pct_mito_def view_def subset_obs_def mask_list_map2 mask_list_map comp_def)

lemma filter_engine_view:
  assumes "wf_anndata a"
  shows "filter_engine ar a = Inr (view ar a (cells5 ar a))"
  by (simp add: filter_engine_def Let_def stats_view [OF assms] cut_n_genes_view
      cut_pct_mito_view cells4_def cells5_def)

subsection \<open>The five steps\<close>

lemma startswith_take: "startswith s p \<longleftrightarrow> take (length p) s = p"
  by (induction s p rule: startswith.induct) auto

lemma startswith_MT: "startswith g ''MT-'' \<longleftrightarrow> take 3 g = ''MT-''"
  using startswith_take [of g "''MT-''"] by (simp add: numeral_3_eq_3)

lemma count_pos_nonneg:
  "list_all (\<lambda>x. 0 \<le> x) r \<Longrightarrow> count_pos r = spec_genes_detected r"
proof -
  assume "list_all (\<lambda>x. 0 \<le> x) r"
  then have "filter (\<lambda>x. 0 < x) r = filter (\<lambda>x. x \<noteq> 0) r"
    by (intro filter_cong) (auto simp: list_all_iff)
  then show ?thesis
    by (simp add: count_pos_def spec_genes_detected_def)
qed

lemma nonneg_row:
  "nonneg_counts a \<Longrightarrow> i < length (X a) \<Longrightarrow> list_all (\<lambda>x. 0 \<le> x) (X a ! i)"
  by (simp add: nonneg_counts_def list_all_length)

lemma nonneg_entry:
  "nonneg_counts a \<Longrightarrow> i < length (X a) \<Longrightarrow> j < length (X a ! i) \<Longrightarrow> 0 \<le> X a ! i ! j"
  by (simp add: nonneg_counts_def list_all_length)

lemma spec_step1_eq:
  assumes "nonneg_counts a"
  shows "spec_step1 ar a = cells1 ar a"
  unfolding spec_step1_def cells1_def
  by (rule filter_cong) (simp_all add: count_pos_nonneg nonneg_row [OF assms])

lemma spec_cells_detected_eq:
  assumes "wf_anndata a" "nonneg_counts a" "j < length (var_names a)"
  shows "spec_cells_detected ar a j = n_cells_of ar a j"
proof -
  have "filter (\<lambda>i. 0 < X a ! i ! j) (cells1 ar a) = filter (\<lambda>i. X a ! i ! j \<noteq> 0) (cells1 ar a)"
  proof (rule filter_cong)
    fix i assume "i \<in> set (cells1 ar a)"
    then have i: "i < length (X a)" by (rule cells1_bound)
    then have "0 \<le> X a ! i ! j"
      using assms by (simp add: nonneg_entry wf_row_length)
    then show "(0 < X a ! i ! j) = (X a ! i ! j \<noteq> 0)" by auto
  qed simp
  then show ?thesis
    by (simp add: spec_cells_detected_def n_cells_of_def count_pos_def filter_map comp_def
        spec_step1_eq [OF assms(2)])
qed

lemma spec_step2_eq:
  assumes "wf_anndata a" "nonneg_counts a"
  shows "spec_step2 ar a = genes2 ar a"
  unfolding spec_step2_def genes2_def
  by (rule filter_cong) (simp_all add: spec_cells_detected_eq [OF assms])

lemma spec_total_counts_eq:
  assumes "wf_anndata a" "nonneg_counts a"
  shows "spec_total_counts ar a i = sum_list (row2 ar a i)"
  by (simp add: spec_total_counts_def row2_def spec_step2_eq [OF assms])

lemma spec_mito_fraction_eq:
  assumes "wf_anndata a" "nonneg_counts a"
  shows "spec_mito_fraction ar a i = frac2 ar a i"
  by (simp add: spec_mito_fraction_def frac2_def mito2_def startswith_MT
      spec_total_counts_eq [OF assms] spec_step2_eq [OF assms])

lemma spec_step4_eq:
  assumes "nonneg_counts a"
  shows "spec_step4 ar a = cells4 ar a"
  unfolding spec_step4_def cells4_def spec_step1_eq [OF assms]
  by (rule filter_cong)
    (simp_all add: count_pos_nonneg nonneg_row [OF assms] cells1_bound)

lemma spec_step5_eq:
  assumes "wf_anndata a" "nonneg_counts a"
  shows "spec_step5 ar a = cells5 ar a"
  by (simp add: spec_step5_def cells5_def spec_step4_eq [OF assms(2)]
      spec_mito_fraction_eq [OF assms])

lemma cells5_bound: "i \<in> set (cells5 ar a) \<Longrightarrow> i < length (X a)"
  by (simp add: cells5_def cells4_def cells1_def)

lemma genes2_bound: "j \<in> set (genes2 ar a) \<Longrightarrow> j < length (var_names a)"
  by (simp add: genes2_def)

lemma spec_filter_engine_eq:
  assumes "wf_anndata a" "nonneg_counts a"
  shows "spec_filter_engine ar a = view ar a (cells5 ar a)"
  unfolding spec_filter_engine_def view_def
  using cells5_bound [of _ ar a] genes2_bound [of _ ar a] assms
  by (simp add: spec_step5_eq [OF assms] spec_step2_eq [OF assms] row2_def
      spec_mito_fraction_eq [OF assms] spec_total_counts_eq [OF assms]
      spec_cells_detected_eq count_pos_nonneg nonneg_row cong: map_cong)

text \<open>Claim C1. On a well-formed matrix of non-negative counts the filter engine
  succeeds, and its result is the one of the five steps in their order: cells with
  genes-detected \<open>\<ge> thr_min_genes\<close>; genes with cells-detected \<open>\<ge> thr_min_cells\<close>,
  counted over the cells that step 1 left; total counts and mitochondrial fraction over
  the genes that step 2 left; cells with genes-detected \<open>< thr_n_genes\<close>; cells with
  mitochondrial fraction \<open>< thr_pct_mito\<close>. The matrix, both identifier sequences and
  every annotation column are restricted to the same positions.\<close>

theorem filter_engine_five_steps:
  assumes "wf_anndata a" and "nonneg_counts a"
  shows "filter_engine ar a = Inr (spec_filter_engine ar a)"
  by (simp add: filter_engine_view [OF assms(1)] spec_filter_engine_eq [OF assms])

theorem filter_engine_five_steps_witness:
  "wf_anndata example_adata \<and> nonneg_counts example_adata \<and>
   filter_engine example_args example_adata
   = Inr \<lparr>X = [[1, 2, 5]], obs_names = [''c4''],
          var_names = [''MT-CO1'', ''ACTB'', ''GAPDH''],
          obs_n_genes = Some [3], obs_percent_mito = Some [Fin (1 / 8)],
          obs_n_counts = Some [8], var_n_cells = Some [4, 3, 3]\<rparr>"
proof -
  have wf: "wf_anndata example_adata"
    by (simp add: wf_anndata_def example_adata_def)
  have nn: "nonneg_counts example_adata"
    by (simp add: nonneg_counts_def example_adata_def)
  have "spec_filter_engine example_args example_adata
        = \<lparr>X = [[1, 2, 5]], obs_names = [''c4''],
          var_names = [''MT-CO1'', ''ACTB'', ''GAPDH''],
          obs_n_genes = Some [3], obs_percent_mito = Some [Fin (1 / 8)],
          obs_n_counts = Some [8], var_n_cells = Some [4, 3, 3]\<rparr>"
    by code_simp
  with filter_engine_five_steps [OF wf nn, of example_args] wf nn show ?thesis
    by simp
qed

subsection \<open>Thresholds of zero\<close>

lemma mask_all_true:
  "length ys \<le> length xs \<Longrightarrow> mask_list (map (\<lambda>_. True) xs) ys = ys"
proof (induction xs arbitrary: ys)
  case Nil
  then show ?case by simp
next
  case (Cons x xs)
  then show ?case by (cases ys) simp_all
qed

text \<open>Claim C6. With \<open>thr_min_genes = 0\<close> the cell filter of step 1 keeps every cell,
  and with \<open>thr_min_cells = 0\<close> the gene filter of step 2 keeps every gene: each returns
  its argument with nothing but the column of the statistic added.\<close>

theorem zero_threshold_keeps_all:
  assumes "wf_anndata a"
  shows "filter_cells 0 a = a\<lparr>obs_n_genes := Some (map count_pos (X a))\<rparr> \<and>
         filter_genes 0 a
         = a\<lparr>var_n_cells := Some (count_pos_axis0 (length (var_names a)) (X a))\<rparr>"
proof
  have len: "length (obs_names a) = length (X a)"
    using assms by (simp add: wf_anndata_def)
  have mito: "map_option (mask_list (map (\<lambda>_. True) (X a))) (obs_percent_mito a)
              = obs_percent_mito a"
    using assms by (cases "obs_percent_mito a") (simp_all add: mask_all_true wf_anndata_def)
  have counts: "map_option (mask_list (map (\<lambda>_. True) (X a))) (obs_n_counts a)
              = obs_n_counts a"
    using assms by (cases "obs_n_counts a") (simp_all add: mask_all_true wf_anndata_def)
  show "filter_cells 0 a = a\<lparr>obs_n_genes := Some (map count_pos (X a))\<rparr>"
    by (simp add: filter_cells_def Let_def subset_obs_def comp_def mask_all_true len mito counts)
next
  have rows: "map (mask_list (map (\<lambda>_. True) [0..<length (var_names a)])) (X a) = X a"
    using assms by (intro map_idI mask_all_true) (simp add: wf_anndata_def list_all_iff)
  show "filter_genes 0 a
        = a\<lparr>var_n_cells := Some (count_pos_axis0 (length (var_names a)) (X a))\<rparr>"
    by (simp add: filter_genes_def Let_def subset_var_def count_pos_axis0_def comp_def
        mask_all_true rows)
qed

theorem zero_threshold_keeps_all_witness:
  "wf_anndata example_adata \<and>
   X (filter_cells 0 example_adata) = X example_adata \<and>
   obs_names (filter_cells 0 example_adata) = [''c1'', ''c2'', ''c3'', ''c4'', ''c5''] \<and>
   X (filter_genes 0 example_adata) = X example_adata \<and>
   var_names (filter_genes 0 example_adata) = [''MT-CO1'', ''ACTB'', ''XIST'', ''GAPDH'']"
proof -
  have wf: "wf_anndata example_adata"
    by (simp add: wf_anndata_def example_adata_def)
  show ?thesis
    using zero_threshold_keeps_all [OF wf] wf by (simp add: example_adata_def)
qed

subsection \<open>Every step narrows\<close>

lemma narrower_trans: "narrower s t \<Longrightarrow> narrower t u \<Longrightarrow> narrower s u"
  unfolding narrower_def by (meson dual_order.trans)

lemma narrower_subset_obs: "narrower s (subset_obs m s)"
  by (simp add: narrower_def subset_obs_def set_mask_list length_mask_list)

lemma narrower_subset_var: "narrower s (subset_var m s)"
  by (simp add: narrower_def subset_var_def set_mask_list length_mask_list)

lemma narrower_filter_cells: "narrower s (filter_cells t s)"
  using narrower_subset_obs [of "s\<lparr>obs_n_genes := Some (map count_pos (X s))\<rparr>"]
  by (simp add: filter_cells_def Let_def narrower_def)

lemma narrower_filter_genes: "narrower s (filter_genes t s)"
  using narrower_subset_var
    [of "s\<lparr>var_n_cells := Some (count_pos_axis0 (length (var_names s)) (X s))\<rparr>"]
  by (simp add: filter_genes_def Let_def narrower_def)

lemma narrower_mito_stats: "narrower s (mito_stats s)"
  by (simp add: narrower_def mito_stats_def)

lemma narrower_cut_n_genes: "cut_n_genes t s = Inr u \<Longrightarrow> narrower s u"
  by (auto simp: cut_n_genes_def narrower_subset_obs split: option.splits)

lemma narrower_cut_pct_mito: "cut_pct_mito t s = Inr u \<Longrightarrow> narrower s u"
  by (auto simp: cut_pct_mito_def narrower_subset_obs split: option.splits)

lemma cut_n_genes_total:
  "\<exists>u. cut_n_genes t (mito_stats (filter_genes t2 (filter_cells t1 s))) = Inr u \<and>
       obs_percent_mito u \<noteq> None"
  by (simp add: cut_n_genes_def mito_stats_def filter_genes_def filter_cells_def Let_def
      subset_var_def subset_obs_def)

lemma cut_pct_mito_total: "obs_percent_mito s \<noteq> None \<Longrightarrow> \<exists>u. cut_pct_mito t s = Inr u"
  by (auto simp: cut_pct_mito_def)

text \<open>Claim C4. The six states of the pipeline (the input and the result of each of
  the five steps) form a chain: in every later state the cell identifiers and the gene
  identifiers are subsets of those of every earlier state, and the numbers of rows and
  of columns are not larger. So whatever a step removes is in no later state.\<close>

theorem every_step_narrows:
  "\<exists>a1 a2 a3 a4 a5.
     a1 = filter_cells (thr_min_genes ar) a \<and>
     a2 = filter_genes (thr_min_cells ar) a1 \<and>
     a3 = mito_stats a2 \<and>
     cut_n_genes (thr_n_genes ar) a3 = Inr a4 \<and>
     cut_pct_mito (thr_pct_mito ar) a4 = Inr a5 \<and>
     filter_engine ar a = Inr a5 \<and>
     sorted_wrt narrower [a, a1, a2, a3, a4, a5]"
proof -
  define a1 where "a1 = filter_cells (thr_min_genes ar) a"
  define a2 where "a2 = filter_genes (thr_min_cells ar) a1"
  define a3 where "a3 = mito_stats a2"
  obtain a4 where a4: "cut_n_genes (thr_n_genes ar) a3 = Inr a4" "obs_percent_mito a4 \<noteq> None"
    using cut_n_genes_total unfolding a3_def a2_def a1_def by blast
  obtain a5 where a5: "cut_pct_mito (thr_pct_mito ar) a4 = Inr a5"
    using cut_pct_mito_total [OF a4(2)] by blast
  have fe: "filter_engine ar a = Inr a5"
    using a4(1) a5 by (simp add: filter_engine_def Let_def a1_def a2_def a3_def)
  have "transp narrower"
    by (rule transpI) (rule narrower_trans)
  moreover have "successively narrower [a, a1, a2, a3, a4, a5]"
    using a4(1) a5
    by (simp add: a1_def a2_def a3_def narrower_filter_cells narrower_filter_genes
        narrower_mito_stats narrower_cut_n_genes narrower_cut_pct_mito)
  ultimately have "sorted_wrt narrower [a, a1, a2, a3, a4, a5]"
    by (simp only: successively_conv_sorted_wrt)
  with a4(1) a5 fe show ?thesis
    using a1_def a2_def a3_def by blast
qed

subsection \<open>A run on the first data set\<close>

lemma example_wf: "wf_anndata example_adata"
  by (simp add: wf_anndata_def example_adata_def)

lemma example_nonneg: "nonneg_counts example_adata"
  by (simp add: nonneg_counts_def example_adata_def)

lemma example_genes: "var_names example_adata \<noteq> []"
  by (simp add: example_adata_def)

lemma example_written: "initialFiltering example_args example_adata = Inr example_loom"
  by code_simp

lemma example_run: "filter_engine example_args example_adata = Inr example_result"
  by code_simp

subsection \<open>The result is well formed\<close>

lemma cells5_filter:
  "cells5 ar a =
     filter (\<lambda>i. thr_min_genes ar \<le> int (count_pos (X a ! i)) \<and>
                int (count_pos (X a ! i)) < thr_n_genes ar \<and>
                np_less (frac2 ar a i) (thr_pct_mito ar)) [0..<length (X a)]"
  by (auto simp: cells5_def cells4_def cells1_def intro: filter_cong)

lemma cells5_sorted: "sorted_wrt (<) (cells5 ar a)"
  unfolding cells5_filter by (rule sorted_wrt_filter) simp

lemma genes2_sorted: "sorted_wrt (<) (genes2 ar a)"
  unfolding genes2_def by (rule sorted_wrt_filter) simp

lemma wf_view: "wf_anndata (view ar a is)"
  by (simp add: wf_anndata_def view_def list_all_iff row2_def)

lemma nonneg_view:
  assumes "wf_anndata a" "nonneg_counts a" "\<forall>i\<in>set is. i < length (X a)"
  shows "nonneg_counts (view ar a is)"
  using assms
  by (auto simp: nonneg_counts_def view_def list_all_iff row2_def wf_row_length
      dest!: genes2_bound intro!: nonneg_entry [unfolded nonneg_counts_def list_all_iff])

subsection \<open>The mitochondrial fraction\<close>

lemma sum_list_filter_le:
  fixes f :: "'a \<Rightarrow> rat"
  assumes "\<forall>x\<in>set xs. 0 \<le> f x"
  shows "0 \<le> sum_list (map f (filter P xs)) \<and> sum_list (map f (filter P xs)) \<le> sum_list (map f xs)"
  using assms by (induction xs) auto

lemma frac2_cases:
  assumes "wf_anndata a" "nonneg_counts a" "i < length (X a)"
  shows "(sum_list (row2 ar a i) = 0 \<and> frac2 ar a i = NaN) \<or>
         (sum_list (row2 ar a i) \<noteq> 0 \<and> (\<exists>q. frac2 ar a i = Fin q \<and> 0 \<le> q \<and> q \<le> 1))"
proof -
  let ?f = "\<lambda>j. X a ! i ! j"
  have nn: "\<forall>j\<in>set (genes2 ar a). 0 \<le> ?f j"
    using assms by (auto dest!: genes2_bound simp: nonneg_entry wf_row_length)
  have m: "0 \<le> sum_list (mito2 ar a i)" "sum_list (mito2 ar a i) \<le> sum_list (row2 ar a i)"
    using sum_list_filter_le [OF nn] by (simp_all add: mito2_def row2_def)
  show ?thesis
  proof (cases "sum_list (row2 ar a i) = 0")
    case True
    with m have "sum_list (mito2 ar a i) = 0" by simp
    with True show ?thesis by (simp add: frac2_def np_div_def)
  next
    case False
    with m have "0 < sum_list (row2 ar a i)" by simp
    with m have "0 \<le> sum_list (mito2 ar a i) / sum_list (row2 ar a i)"
      "sum_list (mito2 ar a i) / sum_list (row2 ar a i) \<le> 1"
      by simp_all
    with False show ?thesis by (simp add: frac2_def np_div_def)
  qed
qed

lemma frac2_survivor:
  assumes "wf_anndata a" "nonneg_counts a" "i \<in> set (cells5 ar a)"
  shows "sum_list (row2 ar a i) \<noteq> 0 \<and> (\<exists>q. frac2 ar a i = Fin q \<and> 0 \<le> q \<and> q \<le> 1)"
proof -
  have "i < length (X a)" "np_less (frac2 ar a i) (thr_pct_mito ar)"
    using assms(3) by (simp_all add: cells5_filter)
  with frac2_cases [OF assms(1,2), of i ar] show ?thesis
    by auto
qed

lemma percent_mito_view:
  "map (percent_mito (mito_genes (view ar a is))) (X (view ar a is)) = map (frac2 ar a) is"
  by (simp add: view_def mito_genes_def comp_def percent_mito_row2)

text \<open>Claim C2. On a well-formed matrix of non-negative counts, for every threshold
  configuration, the column of mitochondrial fractions of the result is the fraction
  (counts in genes whose identifier starts with \<open>MT-\<close>, divided by total counts) of each
  row of the resulting matrix, and each of these is a finite number between 0 and 1.\<close>

theorem surviving_mito_fraction_in_unit_interval:
  assumes "wf_anndata a" and "nonneg_counts a"
  shows "\<exists>b. filter_engine ar a = Inr b \<and>
           obs_percent_mito b = Some (map (percent_mito (mito_genes b)) (X b)) \<and>
           list_all (\<lambda>r. \<exists>q. percent_mito (mito_genes b) r = Fin q \<and> 0 \<le> q \<and> q \<le> 1) (X b)"
proof -
  let ?b = "view ar a (cells5 ar a)"
  have eq: "map (percent_mito (mito_genes ?b)) (X ?b) = map (frac2 ar a) (cells5 ar a)"
    by (rule percent_mito_view)
  have "list_all (\<lambda>p. \<exists>q. p = Fin q \<and> 0 \<le> q \<and> q \<le> 1) (map (frac2 ar a) (cells5 ar a))"
    using frac2_survivor [OF assms] by (simp add: list_all_iff)
  then have "list_all (\<lambda>p. \<exists>q. p = Fin q \<and> 0 \<le> q \<and> q \<le> 1)
               (map (percent_mito (mito_genes ?b)) (X ?b))"
    by (simp only: eq)
  then have "list_all (\<lambda>r. \<exists>q. percent_mito (mito_genes ?b) r = Fin q \<and> 0 \<le> q \<and> q \<le> 1) (X ?b)"
    by (simp add: list_all_iff)
  moreover have "obs_percent_mito ?b = Some (map (percent_mito (mito_genes ?b)) (X ?b))"
    unfolding eq by (simp add: view_def)
  ultimately show ?thesis
    using filter_engine_view [OF assms(1), of ar] by blast
qed

theorem surviving_mito_fraction_in_unit_interval_witness:
  "wf_anndata example_adata \<and> nonneg_counts example_adata \<and>
   filter_engine example_args example_adata = Inr example_result \<and>
   obs_percent_mito example_result
   = Some (map (percent_mito (mito_genes example_result)) (X example_result)) \<and>
   list_all (\<lambda>r. \<exists>q. percent_mito (mito_genes example_result) r = Fin q \<and> 0 \<le> q \<and> q \<le> 1)
     (X example_result)"
  using surviving_mito_fraction_in_unit_interval [OF example_wf example_nonneg, of example_args]
  by (simp add: example_run example_wf example_nonneg)

subsection \<open>Cells without counts\<close>

lemma column_transpose_m:
  assumes "i < length M" "length (M ! i) = m"
  shows "column (transpose_m m M) i = M ! i"
  using assms by (intro nth_equalityI) (simp_all add: column_def transpose_m_def)

lemma writer_wf:
  assumes "wf_anndata b"
  shows "writer b =
     \<lparr>matrix = map (\<lambda>j. map (\<lambda>i. X b ! i ! j) [0..<length (obs_names b)])
                 [0..<length (var_names b)],
      Gene = var_names b,
      CellID = obs_names b,
      nGene = map count_pos (X b),
      nUMI = map sum_list (X b)\<rparr>"
proof -
  have len: "length (X b) = length (obs_names b)"
    using assms by (simp add: wf_anndata_def)
  have col: "column (transpose_m (length (var_names b)) (X b)) i = X b ! i"
    if "i < length (obs_names b)" for i
    using that assms len by (simp add: column_transpose_m wf_row_length)
  have t: "transpose_m (length (var_names b)) (X b)
           = map (\<lambda>j. map (\<lambda>i. X b ! i ! j) [0..<length (obs_names b)]) [0..<length (var_names b)]"
    using map_by_index [of "\<lambda>r. r ! j" "X b" for j]
    by (simp add: transpose_m_def column_def len)
  have g: "count_pos_axis0 (length (obs_names b)) (transpose_m (length (var_names b)) (X b))
           = map count_pos (X b)"
    using col by (intro nth_equalityI) (simp_all add: count_pos_axis0_def len)
  have u: "sum_axis0 (length (obs_names b)) (transpose_m (length (var_names b)) (X b))
           = map sum_list (X b)"
    using col by (intro nth_equalityI) (simp_all add: sum_axis0_def len)
  show ?thesis
    unfolding writer_def Let_def g u by (simp add: t)
qed

text \<open>Claim C8. On a well-formed matrix of non-negative counts, after the min-genes and
  min-cells cuts a cell whose total count is zero has the mitochondrial fraction NaN,
  which is below no threshold; the result of the filter engine has no row with total
  zero, and no zero among the total counts handed to the writer.\<close>

theorem zero_total_cells_removed:
  fixes ar a
  defines "a3 \<equiv> mito_stats (filter_genes (thr_min_cells ar) (filter_cells (thr_min_genes ar) a))"
  assumes "wf_anndata a" and "nonneg_counts a"
  shows "\<exists>ps b. obs_percent_mito a3 = Some ps \<and> length ps = length (X a3) \<and>
           (\<forall>i<length (X a3). sum_list (X a3 ! i) = 0 \<longrightarrow>
              ps ! i = NaN \<and> \<not> np_less (ps ! i) (thr_pct_mito ar)) \<and>
           filter_engine ar a = Inr b \<and>
           0 \<notin> set (sum_axis1 (X b)) \<and>
           0 \<notin> set (nUMI (writer b))"
proof -
  let ?b = "view ar a (cells5 ar a)"
  have a3: "a3 = view ar a (cells1 ar a)"
    unfolding a3_def by (rule stats_view) (rule assms)
  have nan: "frac2 ar a (cells1 ar a ! k) = NaN"
    if "k < length (cells1 ar a)" "sum_list (row2 ar a (cells1 ar a ! k)) = 0" for k
  proof -
    have "cells1 ar a ! k < length (X a)"
      using that(1) cells1_bound [of "cells1 ar a ! k" ar a] by simp
    from frac2_cases [OF assms(2,3) this, of ar] that(2) show ?thesis
      by simp
  qed
  have "0 \<notin> set (map sum_list (X ?b))"
    using frac2_survivor [OF assms(2,3), of _ ar] by (auto simp: view_def)
  moreover have "writer ?b = \<lparr>matrix = map (\<lambda>j. map (\<lambda>i. X ?b ! i ! j) [0..<length (obs_names ?b)])
                 [0..<length (var_names ?b)],
      Gene = var_names ?b, CellID = obs_names ?b,
      nGene = map count_pos (X ?b), nUMI = map sum_list (X ?b)\<rparr>"
    by (rule writer_wf) (rule wf_view)
  ultimately have out: "0 \<notin> set (sum_axis1 (X ?b))" "0 \<notin> set (nUMI (writer ?b))"
    by (simp_all add: sum_axis1_def)
  have "obs_percent_mito a3 = Some (map (frac2 ar a) (cells1 ar a))"
    "length (map (frac2 ar a) (cells1 ar a)) = length (X a3)"
    "\<forall>i<length (X a3). sum_list (X a3 ! i) = 0 \<longrightarrow>
       map (frac2 ar a) (cells1 ar a) ! i = NaN \<and>
       \<not> np_less (map (frac2 ar a) (cells1 ar a) ! i) (thr_pct_mito ar)"
    using nan by (simp_all add: a3 view_def)
  with out filter_engine_view [OF assms(2), of ar] show ?thesis
    by blast
qed

theorem zero_total_cells_removed_witness:
  "wf_anndata example_zero \<and> nonneg_counts example_zero \<and>
   X (mito_stats (filter_genes 2 (filter_cells 1 example_zero)))
   = [[1, 3], [0, 2], [0, 0], [2, 1]] \<and>
   obs_percent_mito (mito_stats (filter_genes 2 (filter_cells 1 example_zero)))
   = Some [Fin (1 / 4), Fin 0, NaN, Fin (2 / 3)] \<and>
   filter_engine example_zero_args example_zero = Inr example_zero_result \<and>
   sum_axis1 (X example_zero_result) = [4, 2, 3] \<and>
   nUMI (writer example_zero_result) = [4, 2, 3]"
proof -
  have wf: "wf_anndata example_zero"
    by (simp add: wf_anndata_def example_zero_def)
  have nn: "nonneg_counts example_zero"
    by (simp add: nonneg_counts_def example_zero_def)
  have st: "X (mito_stats (filter_genes 2 (filter_cells 1 example_zero)))
            = [[1, 3], [0, 2], [0, 0], [2, 1]]"
    "obs_percent_mito (mito_stats (filter_genes 2 (filter_cells 1 example_zero)))
     = Some [Fin (1 / 4), Fin 0, NaN, Fin (2 / 3)]"
    by code_simp+
  have fe: "filter_engine example_zero_args example_zero = Inr example_zero_result"
    by code_simp
  have wr: "sum_axis1 (X example_zero_result) = [4, 2, 3]"
    "nUMI (writer example_zero_result) = [4, 2, 3]"
    by code_simp+
  show ?thesis
    using zero_total_cells_removed [OF wf nn, of example_zero_args]
    by (simp add: wf nn st fe wr)
qed

subsection \<open>The writer\<close>

lemma initialFiltering_view:
  assumes "wf_anndata a" "var_names a \<noteq> []"
  shows "initialFiltering ar a = Inr (writer (view ar a (cells5 ar a)))"
  using assms by (simp add: initialFiltering_def filter_engine_view)

text \<open>Claim C7. On a well-formed matrix of non-negative counts with at least one gene,
  the program succeeds, and what it hands to the writer is made from the result \<open>b\<close> of
  the filter engine alone: the matrix of \<open>b\<close> transposed (row \<open>j\<close> holds gene \<open>j\<close> across
  the cells), the gene identifiers as row attribute, and as column attributes the cell
  identifiers, the number of nonzero entries of each row of \<open>b\<close>, and the sum of each
  row of \<open>b\<close>. The column \<open>n_genes\<close> that step 1 left is not what is written: in the
  run below it holds 3, 2, 2, and 2, 2, 1 is written.\<close>

theorem writer_output:
  assumes "wf_anndata a" and "nonneg_counts a" and "var_names a \<noteq> []"
  shows "\<exists>b. filter_engine ar a = Inr b \<and>
           initialFiltering ar a =
             Inr \<lparr>matrix = map (\<lambda>j. map (\<lambda>i. X b ! i ! j) [0..<length (obs_names b)])
                               [0..<length (var_names b)],
                  Gene = var_names b,
                  CellID = obs_names b,
                  nGene = map spec_genes_detected (X b),
                  nUMI = map sum_list (X b)\<rparr>"
proof -
  let ?b = "view ar a (cells5 ar a)"
  have "nonneg_counts ?b"
    using assms(1,2) by (intro nonneg_view) (simp_all add: cells5_bound)
  then have "map count_pos (X ?b) = map spec_genes_detected (X ?b)"
    by (intro map_cong) (simp_all add: count_pos_nonneg nonneg_counts_def list_all_iff)
  with writer_wf [OF wf_view, of ar a "cells5 ar a"]
  have "writer ?b = \<lparr>matrix = map (\<lambda>j. map (\<lambda>i. X ?b ! i ! j) [0..<length (obs_names ?b)])
                               [0..<length (var_names ?b)],
                  Gene = var_names ?b, CellID = obs_names ?b,
                  nGene = map spec_genes_detected (X ?b), nUMI = map sum_list (X ?b)\<rparr>"
    by simp
  with initialFiltering_view [OF assms(1,3), of ar] filter_engine_view [OF assms(1), of ar]
  show ?thesis
    by (intro exI [of _ ?b]) simp
qed

theorem writer_output_witness:
  "wf_anndata idem_input \<and> nonneg_counts idem_input \<and> var_names idem_input \<noteq> [] \<and>
   filter_engine idem_args idem_input = Inr idem_once \<and>
   initialFiltering idem_args idem_input = Inr idem_loom \<and>
   obs_n_genes idem_once = Some [3, 2, 2] \<and>
   nGene idem_loom = [2, 2, 1] \<and>
   nGene idem_loom = map spec_genes_detected (X idem_once) \<and>
   nUMI idem_loom = map sum_list (X idem_once)"
proof -
  have h: "wf_anndata idem_input" "nonneg_counts idem_input" "var_names idem_input \<noteq> []"
    by (simp_all add: wf_anndata_def nonneg_counts_def idem_input_def)
  have run: "filter_engine idem_args idem_input = Inr idem_once"
    "initialFiltering idem_args idem_input = Inr idem_loom"
    by code_simp+
  have col: "obs_n_genes idem_once = Some [3, 2, 2]" "nGene idem_loom = [2, 2, 1]"
    by (simp_all add: idem_once_def idem_loom_def)
  show ?thesis
    using writer_output [OF h, of idem_args]
    by (simp add: run h col) (simp add: idem_loom_def)
qed

subsection \<open>Order\<close>

lemma subseq_index_filter:
  assumes "length xs = n"
  shows "subseq (map ((!) xs) (filter P [0..<n])) xs"
  using subseq_mask_list [of "map P [0..<n]" xs] by (simp add: mask_list_upt [OF assms])

lemma subseq_subset_obs:
  "subseq (obs_names (subset_obs m s)) (obs_names s)"
  "var_names (subset_obs m s) = var_names s"
  by (simp_all add: subset_obs_def subseq_mask_list)

text \<open>Claim C10. No step permutes rows or columns: the cell filter and the two cuts
  leave a subsequence of the cell identifiers and the gene identifiers as they are, the
  gene filter leaves a subsequence of the gene identifiers and the cell identifiers as
  they are, the statistics and the writer change neither. For the program as a whole,
  on a well-formed matrix with at least one gene, there are strictly increasing
  positions \<open>is\<close> of cells and \<open>js\<close> of genes of the input such that the written cell
  identifiers, gene identifiers and matrix are the input's at these positions, in this
  order.\<close>

theorem order_preserved:
  assumes "wf_anndata a" and "var_names a \<noteq> []"
  shows "(\<exists>is js out. initialFiltering ar a = Inr out \<and>
            sorted_wrt (<) is \<and> set is \<subseteq> {..<length (obs_names a)} \<and>
            sorted_wrt (<) js \<and> set js \<subseteq> {..<length (var_names a)} \<and>
            CellID out = map (\<lambda>i. obs_names a ! i) is \<and>
            Gene out = map (\<lambda>j. var_names a ! j) js \<and>
            matrix out = map (\<lambda>j. map (\<lambda>i. X a ! i ! j) is) js \<and>
            subseq (CellID out) (obs_names a) \<and>
            subseq (Gene out) (var_names a)) \<and>
         subseq (obs_names (filter_cells t s)) (obs_names s) \<and>
         var_names (filter_cells t s) = var_names s \<and>
         subseq (var_names (filter_genes t s)) (var_names s) \<and>
         obs_names (filter_genes t s) = obs_names s \<and>
         obs_names (mito_stats s) = obs_names s \<and>
         var_names (mito_stats s) = var_names s \<and>
         (\<forall>u. cut_n_genes t s = Inr u \<longrightarrow>
              subseq (obs_names u) (obs_names s) \<and> var_names u = var_names s) \<and>
         (\<forall>u. cut_pct_mito p s = Inr u \<longrightarrow>
              subseq (obs_names u) (obs_names s) \<and> var_names u = var_names s) \<and>
         CellID (writer s) = obs_names s \<and> Gene (writer s) = var_names s"
proof -
  let ?b = "view ar a (cells5 ar a)"
  have len: "length (X a) = length (obs_names a)"
    using assms(1) by (simp add: wf_anndata_def)
  have w: "writer ?b = \<lparr>matrix = map (\<lambda>j. map (\<lambda>i. X ?b ! i ! j) [0..<length (obs_names ?b)])
                 [0..<length (var_names ?b)],
      Gene = var_names ?b, CellID = obs_names ?b,
      nGene = map count_pos (X ?b), nUMI = map sum_list (X ?b)\<rparr>"
    by (rule writer_wf) (rule wf_view)
  have m: "map (\<lambda>j. map (\<lambda>i. X ?b ! i ! j) [0..<length (obs_names ?b)]) [0..<length (var_names ?b)]
           = map (\<lambda>j. map (\<lambda>i. X a ! i ! j) (cells5 ar a)) (genes2 ar a)"
    by (intro nth_equalityI) (simp_all add: view_def row2_def)
  have sc: "subseq (map ((!) (obs_names a)) (cells5 ar a)) (obs_names a)"
    unfolding cells5_filter len by (rule subseq_index_filter) simp
  have sg: "subseq (map ((!) (var_names a)) (genes2 ar a)) (var_names a)"
    unfolding genes2_def by (rule subseq_index_filter) simp
  have whole: "\<exists>is js out. initialFiltering ar a = Inr out \<and>
            sorted_wrt (<) is \<and> set is \<subseteq> {..<length (obs_names a)} \<and>
            sorted_wrt (<) js \<and> set js \<subseteq> {..<length (var_names a)} \<and>
            CellID out = map (\<lambda>i. obs_names a ! i) is \<and>
            Gene out = map (\<lambda>j. var_names a ! j) js \<and>
            matrix out = map (\<lambda>j. map (\<lambda>i. X a ! i ! j) is) js \<and>
            subseq (CellID out) (obs_names a) \<and>
            subseq (Gene out) (var_names a)"
    apply (rule exI [of _ "cells5 ar a"])
    apply (rule exI [of _ "genes2 ar a"])
    apply (rule exI [of _ "writer ?b"])
    using cells5_bound [of _ ar a] genes2_bound [of _ ar a] sc sg
    apply (simp add: initialFiltering_view [OF assms] cells5_sorted genes2_sorted subset_iff len)
    apply (simp add: w m)
    apply (simp add: view_def)
    done
  have c1: "subseq (obs_names (filter_cells t s)) (obs_names s)"
    "var_names (filter_cells t s) = var_names s"
    by (simp_all add: filter_cells_def Let_def subset_obs_def subseq_mask_list)
  have g2: "subseq (var_names (filter_genes t s)) (var_names s)"
    "obs_names (filter_genes t s) = obs_names s"
    by (simp_all add: filter_genes_def Let_def subset_var_def subseq_mask_list)
  have s3: "obs_names (mito_stats s) = obs_names s" "var_names (mito_stats s) = var_names s"
    by (simp_all add: mito_stats_def)
  have c4: "\<forall>u. cut_n_genes t s = Inr u \<longrightarrow>
              subseq (obs_names u) (obs_names s) \<and> var_names u = var_names s"
    by (auto simp: cut_n_genes_def subseq_subset_obs split: option.splits)
  have c5: "\<forall>u. cut_pct_mito p s = Inr u \<longrightarrow>
              subseq (obs_names u) (obs_names s) \<and> var_names u = var_names s"
    by (auto simp: cut_pct_mito_def subseq_subset_obs split: option.splits)
  have wr: "CellID (writer s) = obs_names s" "Gene (writer s) = var_names s"
    by (simp_all add: writer_def Let_def)
  from whole c1 g2 s3 c4 c5 wr show ?thesis
    by (intro conjI)
qed

theorem order_preserved_witness:
  "wf_anndata example_adata \<and> var_names example_adata \<noteq> [] \<and>
   initialFiltering example_args example_adata = Inr example_loom \<and>
   CellID example_loom = map (\<lambda>i. obs_names example_adata ! i) [3] \<and>
   Gene example_loom = map (\<lambda>j. var_names example_adata ! j) [0, 1, 3] \<and>
   matrix example_loom = map (\<lambda>j. map (\<lambda>i. X example_adata ! i ! j) [3]) [0, 1, 3] \<and>
   subseq (CellID example_loom) (obs_names example_adata) \<and>
   subseq (Gene example_loom) (var_names example_adata) \<and>
   cut_n_genes 3 idem_once
   = Inr (idem_once\<lparr>X := [[1, 1], [0, 1]], obs_names := [''c2'', ''c3''],
            obs_n_genes := Some [2, 2], obs_percent_mito := Some [Fin 0, Fin 0],
            obs_n_counts := Some [2, 1]\<rparr>) \<and>
   subseq [''c2'', ''c3''] (obs_names idem_once) \<and>
   cut_pct_mito (Fin (1 / 4)) idem_once = Inr idem_once \<and>
   subseq (obs_names idem_once) (obs_names idem_once)"
proof -
  have out: "CellID example_loom = map (\<lambda>i. obs_names example_adata ! i) [3]"
    "Gene example_loom = map (\<lambda>j. var_names example_adata ! j) [0, 1, 3]"
    "matrix example_loom = map (\<lambda>j. map (\<lambda>i. X example_adata ! i ! j) [3]) [0, 1, 3]"
    by (simp_all add: example_loom_def example_adata_def)
  have c4: "cut_n_genes 3 idem_once
            = Inr (idem_once\<lparr>X := [[1, 1], [0, 1]], obs_names := [''c2'', ''c3''],
                     obs_n_genes := Some [2, 2], obs_percent_mito := Some [Fin 0, Fin 0],
                     obs_n_counts := Some [2, 1]\<rparr>)"
    by (simp add: cut_n_genes_def subset_obs_def idem_once_def)
  have c5: "cut_pct_mito (Fin (1 / 4)) idem_once = Inr idem_once"
    by (simp add: cut_pct_mito_def subset_obs_def idem_once_def)
  from order_preserved [OF example_wf example_genes, of example_args 3 idem_once "Fin (1 / 4)"]
  have "subseq (CellID example_loom) (obs_names example_adata)"
    "subseq (Gene example_loom) (var_names example_adata)"
    "subseq [''c2'', ''c3''] (obs_names idem_once)"
    "subseq (obs_names idem_once) (obs_names idem_once)"
    by (auto simp: example_written c4 c5)
  with out c4 c5 show ?thesis
    by (simp add: example_written example_wf example_genes)
qed

subsection \<open>Mitochondrial genes\<close>

lemma mito_counts_by_index:
  assumes "length r = length (var_names a)"
  shows "sum_list (mask_list (mito_genes a) r)
         = (\<Sum>j\<leftarrow>[0..<length (var_names a)].
              if startswith (var_names a ! j) ''MT-'' then r ! j else 0)"
  unfolding mito_genes_def
  by (simp add: mask_by_index [OF assms] sum_list_map_filter')

lemma sum_list_update_rat:
  fixes xs :: "rat list"
  shows "j < length xs \<Longrightarrow> sum_list (xs[j := v]) = sum_list xs - xs ! j + v"
proof (induction xs arbitrary: j)
  case Nil
  then show ?case by simp
next
  case (Cons x xs)
  then show ?case by (cases j) simp_all
qed

lemma spec_mito_counts_update:
  assumes "take 3 (names ! j) \<noteq> ''MT-''"
  shows "spec_mito_counts names (r[j := v]) = spec_mito_counts names r"
proof -
  have "(if take 3 (names ! k) = ''MT-'' then r[j := v] ! k else 0)
        = (if take 3 (names ! k) = ''MT-'' then r ! k else 0)" for k
    using assms by (cases "k = j") simp_all
  then show ?thesis
    by (simp add: spec_mito_counts_def)
qed

lemma percent_mito_by_prefix:
  assumes "length r = length (var_names a)"
  shows "percent_mito (mito_genes a) r = np_div (spec_mito_counts (var_names a) r) (sum_list r)"
  by (simp add: percent_mito_def spec_mito_counts_def mito_counts_by_index [OF assms]
      startswith_MT)

lemma percent_mito_column:
  assumes "\<forall>r\<in>set (X a). length r = length (var_names a)"
  shows "obs_percent_mito (mito_stats a)
         = Some (map (\<lambda>r. np_div (spec_mito_counts (var_names a) r) (sum_list r)) (X a))"
  using assms by (simp add: mito_stats_def percent_mito_by_prefix)

text \<open>Claim C9 as stated does not hold of the fraction. The identifier \<open>mt-Co1\<close> does
  not begin with \<open>MT-\<close>, and raising its count from 4 to 9 in a cell changes the
  cell's mitochondrial fraction from 3/18 to 3/23: the count is part of the total.\<close>

theorem mito_fraction_not_untouched:
  "take 3 (var_names example_case ! 1) \<noteq> ''MT-'' \<and>
   X example_case = [[3, 4, 5, 6]] \<and>
   obs_percent_mito (mito_stats example_case) = Some [Fin (1 / 6)] \<and>
   obs_percent_mito (mito_stats (example_case\<lparr>X := [[3, 9, 5, 6]]\<rparr>)) = Some [Fin (3 / 23)] \<and>
   Fin (1 / 6) \<noteq> Fin (3 / 23)"
  by (simp add: example_case_def mito_stats_def mito_genes_def percent_mito_def np_div_def
      sum_axis1_def)

text \<open>Claim C9, as amended. On a well-formed matrix the stored mitochondrial fraction
  of every cell is the sum of the cell's counts over the genes whose identifier has
  \<open>MT-\<close> as its first three characters, in this case, divided by the sum of all the
  cell's counts. An identifier beginning \<open>mt-\<close> or \<open>Mt-\<close> is not among these genes. When
  the count of a gene that is not among them is changed in one cell, the fractions of
  the other cells stay, and in the fraction of that cell the numerator stays and only
  the total moves by the change.\<close>

theorem mito_fraction_prefix_exact:
  assumes "wf_anndata a" and "i < length (X a)" and "j < length (var_names a)"
    and "take 3 (var_names a ! j) \<noteq> ''MT-''"
  shows "obs_percent_mito (mito_stats a)
           = Some (map (\<lambda>r. np_div (spec_mito_counts (var_names a) r) (sum_list r)) (X a)) \<and>
         obs_percent_mito (mito_stats (a\<lparr>X := (X a)[i := (X a ! i)[j := v]]\<rparr>))
           = Some ((map (\<lambda>r. np_div (spec_mito_counts (var_names a) r) (sum_list r)) (X a))
                     [i := np_div (spec_mito_counts (var_names a) (X a ! i))
                             (sum_list (X a ! i) - X a ! i ! j + v)]) \<and>
         \<not> startswith (''mt-'' @ s) ''MT-'' \<and> \<not> startswith (''Mt-'' @ s) ''MT-''"
proof -
  let ?a = "a\<lparr>X := (X a)[i := (X a ! i)[j := v]]\<rparr>"
  have jr: "j < length (X a ! i)"
    using assms(1,2,3) by (simp add: wf_row_length)
  have rows: "\<forall>r\<in>set (X a). length r = length (var_names a)"
    using assms(1) by (simp add: wf_anndata_def list_all_iff)
  have "\<forall>r\<in>set (X ?a). length r = length (var_names ?a)"
  proof
    fix r
    assume "r \<in> set (X ?a)"
    then have "r \<in> insert ((X a ! i)[j := v]) (set (X a))"
      using set_update_subset_insert [of "X a" i "(X a ! i)[j := v]"] by auto
    then show "length r = length (var_names ?a)"
      using rows assms(1,2) by (auto simp: wf_row_length)
  qed
  from percent_mito_column [OF this]
  have "obs_percent_mito (mito_stats ?a)
        = Some ((map (\<lambda>r. np_div (spec_mito_counts (var_names a) r) (sum_list r)) (X a))
                  [i := np_div (spec_mito_counts (var_names a) ((X a ! i)[j := v]))
                          (sum_list ((X a ! i)[j := v]))])"
    by (simp add: map_update)
  then have "obs_percent_mito (mito_stats ?a)
        = Some ((map (\<lambda>r. np_div (spec_mito_counts (var_names a) r) (sum_list r)) (X a))
                  [i := np_div (spec_mito_counts (var_names a) (X a ! i))
                          (sum_list (X a ! i) - X a ! i ! j + v)])"
    by (simp only: spec_mito_counts_update [OF assms(4)] sum_list_update_rat [OF jr])
  with percent_mito_column [OF rows] show ?thesis
    by simp
qed

theorem mito_fraction_prefix_exact_witness:
  "wf_anndata example_case \<and> 0 < length (X example_case) \<and>
   2 < length (var_names example_case) \<and>
   take 3 (var_names example_case ! 2) \<noteq> ''MT-'' \<and>
   X example_case = [[3, 4, 5, 6]] \<and>
   spec_mito_counts (var_names example_case) [3, 4, 5, 6] = 3 \<and>
   obs_percent_mito (mito_stats example_case) = Some [Fin (1 / 6)] \<and>
   obs_percent_mito (mito_stats (example_case\<lparr>X := [[3, 4, 0, 6]]\<rparr>)) = Some [Fin (3 / 13)]"
proof -
  have h: "wf_anndata example_case" "0 < length (X example_case)"
    "2 < length (var_names example_case)" "take 3 (var_names example_case ! 2) \<noteq> ''MT-''"
    by (simp_all add: wf_anndata_def example_case_def)
  have x: "X example_case = [[3, 4, 5, 6]]"
    "(X example_case)[0 := (X example_case ! 0)[2 := 0]] = [[3, 4, 0, 6]]"
    by (simp_all add: example_case_def)
  have n: "spec_mito_counts (var_names example_case) [3, 4, 5, 6] = 3"
    by code_simp
  from mito_fraction_prefix_exact [OF h, of 0] h x n show ?thesis
    by (simp add: np_div_def)
qed

subsection \<open>The scenario of one mitochondrial gene\<close>

lemma filter_eq_single: "j < n \<Longrightarrow> filter (\<lambda>k. k = j) [0..<n] = [j]"
  by (induction n) (auto simp: less_Suc_eq)

lemma map_np_div:
  "map (\<lambda>r. np_div (f r) (g r)) xs = map (\<lambda>(x, y). np_div x y) (zip (map f xs) (map g xs))"
  by (induction xs) simp_all

lemma mask_list_twice:
  "length ps = length xs \<Longrightarrow>
   mask_list (map q (mask_list m ps)) (mask_list m xs)
   = mask_list (map (\<lambda>(b, p). b \<and> q p) (zip m ps)) xs"
proof (induction m arbitrary: ps xs)
  case Nil
  then show ?case by simp
next
  case (Cons b m)
  show ?case
  proof (cases ps)
    case Nil
    with Cons.prems show ?thesis by simp
  next
    case ps: (Cons p ps')
    with Cons.prems obtain x xs' where xs: "xs = x # xs'" "length ps' = length xs'"
      by (cases xs) auto
    with ps Cons.IH [of ps' xs'] show ?thesis by simp
  qed
qed

lemma list_of_five: "length xs = 5 \<Longrightarrow> \<exists>a b c d e. xs = [a, b, c, d, e]"
  by (auto simp: length_Suc_conv eval_nat_numeral)

lemma mask_list_False_tl: "mask_list (False # m) xs = mask_list m (tl xs)"
  by (cases xs) simp_all

text \<open>Claim C5. Take a matrix of five cells, as it is after the min-genes and
  min-cells cuts, in which the gene \<open>MT-CO1\<close> has the counts 10, 0, 0, 0, 0, the cells
  have the total counts 20, 5, 5, 5, 5, and no other gene identifier starts with \<open>MT-\<close>.
  The mitochondrial fractions are 1/2, 0, 0, 0, 0, and 1/2 is not below 1/4: whatever
  \<open>thr_n_genes\<close> is, after the cut at \<open>thr_pct_mito = 1/4\<close> the first cell is gone, and
  each of the other four is there exactly when the genes-detected cut kept it.\<close>

theorem scenario_mt_co1:
  assumes "wf_anndata a" and "length (X a) = 5"
    and "j < length (var_names a)" and "var_names a ! j = ''MT-CO1''"
    and "\<forall>k<length (var_names a). k \<noteq> j \<longrightarrow> \<not> startswith (var_names a ! k) ''MT-''"
    and "column (X a) j = [10, 0, 0, 0, 0]"
    and "sum_axis1 (X a) = [20, 5, 5, 5, 5]"
    and "obs_n_genes a = Some ng"
  shows "obs_percent_mito (mito_stats a) = Some [Fin (1 / 2), Fin 0, Fin 0, Fin 0, Fin 0] \<and>
         \<not> np_less (Fin (1 / 2)) (Fin (1 / 4)) \<and>
         (\<exists>a4 b. cut_n_genes thr (mito_stats a) = Inr a4 \<and>
                 cut_pct_mito (Fin (1 / 4)) a4 = Inr b \<and>
                 obs_names b = mask_list (map (\<lambda>n. int n < thr) (tl ng)) (tl (obs_names a)) \<and>
                 X b = mask_list (map (\<lambda>n. int n < thr) (tl ng)) (tl (X a)))"
proof -
  let ?pm = "[Fin (1 / 2), Fin 0, Fin 0, Fin 0, Fin 0]"
  let ?m4 = "map (\<lambda>n. int n < thr) ng"
  let ?q = "\<lambda>p. np_less p (Fin (1 / 4))"
  have len: "length (obs_names a) = 5" "length ng = 5"
    using assms(1,2,8) by (simp_all add: wf_anndata_def)
  have only: "filter (\<lambda>k. startswith (var_names a ! k) ''MT-'') [0..<length (var_names a)] = [j]"
  proof -
    have "filter (\<lambda>k. startswith (var_names a ! k) ''MT-'') [0..<length (var_names a)]
          = filter (\<lambda>k. k = j) [0..<length (var_names a)]"
      using assms(4,5) by (intro filter_cong) auto
    then show ?thesis
      using assms(3) by (simp add: filter_eq_single)
  qed
  have num: "sum_list (mask_list (mito_genes a) r) = r ! j" if "r \<in> set (X a)" for r
  proof -
    have "length r = length (var_names a)"
      using that assms(1) by (simp add: wf_anndata_def list_all_iff)
    then show ?thesis
      by (simp add: mito_genes_def mask_by_index only)
  qed
  have "map (percent_mito (mito_genes a)) (X a)
        = map (\<lambda>r. np_div (r ! j) (sum_list r)) (X a)"
    using num by (intro map_cong) (simp_all add: percent_mito_def)
  also have "\<dots> = map (\<lambda>(x, y). np_div x y) (zip (column (X a) j) (sum_axis1 (X a)))"
    unfolding column_def sum_axis1_def by (rule map_np_div)
  also have "\<dots> = ?pm"
    by (simp add: assms(6,7) np_div_def)
  finally have pm: "obs_percent_mito (mito_stats a) = Some ?pm"
    by (simp add: mito_stats_def)
  have c4: "cut_n_genes thr (mito_stats a) = Inr (subset_obs ?m4 (mito_stats a))"
    using assms(8) by (simp add: cut_n_genes_def mito_stats_def)
  have c5: "cut_pct_mito (Fin (1 / 4)) (subset_obs ?m4 (mito_stats a))
            = Inr (subset_obs (map ?q (mask_list ?m4 ?pm)) (subset_obs ?m4 (mito_stats a)))"
    using pm by (simp add: cut_pct_mito_def subset_obs_def)
  obtain n0 n1 n2 n3 n4 where ng: "ng = [n0, n1, n2, n3, n4]"
    using list_of_five [OF len(2)] by blast
  have both: "map (\<lambda>(b, p). b \<and> ?q p) (zip ?m4 ?pm) = False # map (\<lambda>n. int n < thr) (tl ng)"
    by (simp add: ng)
  have two: "mask_list (map ?q (mask_list ?m4 ?pm)) (mask_list ?m4 xs)
             = mask_list (map (\<lambda>n. int n < thr) (tl ng)) (tl xs)"
    if "length xs = 5" for xs :: "'b list"
  proof -
    have "length ?pm = length xs"
      using that by simp
    then have "mask_list (map ?q (mask_list ?m4 ?pm)) (mask_list ?m4 xs)
          = mask_list (map (\<lambda>(b, p). b \<and> ?q p) (zip ?m4 ?pm)) xs"
      by (rule mask_list_twice)
    then show ?thesis
      by (simp only: both mask_list_False_tl)
  qed
  have "obs_names (subset_obs (map ?q (mask_list ?m4 ?pm)) (subset_obs ?m4 (mito_stats a)))
        = mask_list (map (\<lambda>n. int n < thr) (tl ng)) (tl (obs_names a))"
    "X (subset_obs (map ?q (mask_list ?m4 ?pm)) (subset_obs ?m4 (mito_stats a)))
        = mask_list (map (\<lambda>n. int n < thr) (tl ng)) (tl (X a))"
    using two [OF len(1)] two [OF assms(2)] by (simp_all add: subset_obs_def mito_stats_def)
  with pm c4 c5 show ?thesis
    by auto
qed

theorem scenario_mt_co1_witness:
  "wf_anndata example_scenario \<and> length (X example_scenario) = 5 \<and>
   var_names example_scenario ! 0 = ''MT-CO1'' \<and>
   column (X example_scenario) 0 = [10, 0, 0, 0, 0] \<and>
   sum_axis1 (X example_scenario) = [20, 5, 5, 5, 5] \<and>
   obs_n_genes example_scenario = Some [2, 1, 1, 1, 1] \<and>
   obs_percent_mito (mito_stats example_scenario)
   = Some [Fin (1 / 2), Fin 0, Fin 0, Fin 0, Fin 0] \<and>
   (\<exists>a4 b. cut_n_genes 5000 (mito_stats example_scenario) = Inr a4 \<and>
           cut_pct_mito (Fin (1 / 4)) a4 = Inr b \<and>
           obs_names b = [''c2'', ''c3'', ''c4'', ''c5''] \<and>
           X b = [[0, 5], [0, 5], [0, 5], [0, 5]])"
proof -
  have h1: "wf_anndata example_scenario"
    by (simp add: wf_anndata_def example_scenario_def)
  have h2: "length (X example_scenario) = 5"
    by (simp add: example_scenario_def)
  have h3: "0 < length (var_names example_scenario)"
    by (simp add: example_scenario_def)
  have h4: "var_names example_scenario ! 0 = ''MT-CO1''"
    by (simp add: example_scenario_def)
  have h5: "\<forall>k<length (var_names example_scenario).
              k \<noteq> 0 \<longrightarrow> \<not> startswith (var_names example_scenario ! k) ''MT-''"
    by (simp add: example_scenario_def less_Suc_eq)
  have h6: "column (X example_scenario) 0 = [10, 0, 0, 0, 0]"
    by (simp add: example_scenario_def column_def)
  have h7: "sum_axis1 (X example_scenario) = [20, 5, 5, 5, 5]"
    by (simp add: example_scenario_def sum_axis1_def)
  have h8: "obs_n_genes example_scenario = Some [2, 1, 1, 1, 1]"
    by (simp add: example_scenario_def)
  have t: "mask_list (map (\<lambda>n. int n < 5000) (tl [2, 1, 1, 1, 1])) (tl (obs_names example_scenario))
           = [''c2'', ''c3'', ''c4'', ''c5'']"
    "mask_list (map (\<lambda>n. int n < 5000) (tl [2, 1, 1, 1, 1])) (tl (X example_scenario))
     = [[0, 5], [0, 5], [0, 5], [0, 5]]"
    by (simp_all add: example_scenario_def)
  from scenario_mt_co1 [OF h1 h2 h3 h4 h5 h6 h7 h8, of 5000] h1 h2 h4 h6 h7 h8 show ?thesis
    unfolding t by blast
qed

subsection \<open>Filtering twice\<close>

text \<open>Claim C3 as stated does not hold. The first run keeps all three cells and
  drops the genes \<open>C\<close> and \<open>D\<close>, each detected in one cell only; in its result the
  third cell has one detected gene left, below \<open>thr_min_genes = 2\<close>, so the second run
  removes it.\<close>

theorem filter_engine_not_idempotent:
  "wf_anndata idem_input \<and> nonneg_counts idem_input \<and>
   filter_engine idem_args idem_input = Inr idem_once \<and>
   filter_engine idem_args idem_once = Inr idem_twice \<and>
   X idem_once = [[1, 1], [1, 1], [0, 1]] \<and> X idem_twice = [[1, 1], [1, 1]] \<and>
   X idem_twice \<noteq> X idem_once"
proof -
  have "wf_anndata idem_input" "nonneg_counts idem_input"
    by (simp_all add: wf_anndata_def nonneg_counts_def idem_input_def)
  moreover have "filter_engine idem_args idem_input = Inr idem_once"
    by code_simp
  moreover have "filter_engine idem_args idem_once = Inr idem_twice"
    by code_simp
  ultimately show ?thesis
    by (simp add: idem_once_def idem_twice_def)
qed

lemma count_pos_mask_le: "count_pos (mask_list m r) \<le> count_pos r"
  unfolding count_pos_def
  by (rule list_emb_length [of "(=)"]) (simp add: subseq_mask_list)

lemma count_pos_row2_le:
  assumes "wf_anndata a" "i < length (X a)"
  shows "count_pos (row2 ar a i) \<le> count_pos (X a ! i)"
proof -
  have "row2 ar a i = mask_list (map (\<lambda>j. thr_min_cells ar \<le> int (n_cells_of ar a j))
                         [0..<length (var_names a)]) (X a ! i)"
    using assms by (simp add: mask_row_genes2 wf_row_length row2_def)
  then show ?thesis
    by (simp add: count_pos_mask_le)
qed

lemma filter_all: "(\<forall>x\<in>set xs. P x) \<Longrightarrow> filter P xs = xs"
  by (simp add: filter_id_conv)

lemma cells1_all:
  assumes "list_all (\<lambda>r. thr_min_genes ar \<le> int (count_pos r)) (X b)"
  shows "cells1 ar b = [0..<length (X b)]"
  unfolding cells1_def using assms by (intro filter_all) (simp add: list_all_length)

lemma genes2_all:
  assumes "list_all (\<lambda>r. thr_min_genes ar \<le> int (count_pos r)) (X b)"
    and "list_all (\<lambda>n. thr_min_cells ar \<le> int n) (count_pos_axis0 (length (var_names b)) (X b))"
  shows "genes2 ar b = [0..<length (var_names b)]"
proof -
  have "n_cells_of ar b j = count_pos (column (X b) j)" for j
    using map_by_index [of "\<lambda>r. r ! j" "X b"]
    by (simp add: n_cells_of_def cells1_all [OF assms(1)] column_def)
  then show ?thesis
    unfolding genes2_def using assms(2)
    by (intro filter_all) (simp add: count_pos_axis0_def list_all_iff)
qed

lemma row2_all:
  assumes "wf_anndata b" "genes2 ar b = [0..<length (var_names b)]" "i < length (X b)"
  shows "row2 ar b i = X b ! i"
  using assms wf_row_length [OF assms(1,3)]
  by (intro nth_equalityI) (simp_all add: row2_def)

lemma frac2_all:
  assumes "wf_anndata b" "genes2 ar b = [0..<length (var_names b)]" "i < length (X b)"
  shows "frac2 ar b i = percent_mito (mito_genes b) (X b ! i)"
proof -
  have "mito_genes b = map (\<lambda>j. startswith (var_names b ! j) ''MT-'') (genes2 ar b)"
    unfolding mito_genes_def assms(2) by (rule map_by_index)
  then show ?thesis
    using percent_mito_row2 [of b ar i] by (simp add: row2_all [OF assms])
qed

text \<open>Claim C3, as amended. Let \<open>b\<close> be the result of the filter engine on a
  well-formed matrix. If in \<open>b\<close> every cell still has at least \<open>thr_min_genes\<close> detected
  genes and every gene is still detected in at least \<open>thr_min_cells\<close> cells, then the
  filter engine with the same thresholds succeeds on \<open>b\<close> and leaves the matrix, both
  identifier sequences, the mitochondrial fractions and the total counts as they are.\<close>

theorem filter_engine_twice:
  assumes "wf_anndata a" and "filter_engine ar a = Inr b"
    and "list_all (\<lambda>r. thr_min_genes ar \<le> int (count_pos r)) (X b)"
    and "list_all (\<lambda>n. thr_min_cells ar \<le> int n)
           (count_pos_axis0 (length (var_names b)) (X b))"
  shows "\<exists>c. filter_engine ar b = Inr c \<and> X c = X b \<and>
           obs_names c = obs_names b \<and> var_names c = var_names b \<and>
           obs_percent_mito c = obs_percent_mito b \<and> obs_n_counts c = obs_n_counts b"
proof -
  let ?is = "cells5 ar a"
  have b: "b = view ar a ?is"
    using assms(1,2) by (simp add: filter_engine_view)
  have wfb: "wf_anndata b"
    unfolding b by (rule wf_view)
  have n: "length (X b) = length ?is" "length (obs_names b) = length ?is"
    by (simp_all add: b view_def)
  have c1: "cells1 ar b = [0..<length (X b)]"
    by (rule cells1_all) (rule assms(3))
  have g2: "genes2 ar b = [0..<length (var_names b)]"
    by (rule genes2_all) (rule assms(3), rule assms(4))
  have row: "row2 ar b i = row2 ar a (?is ! i)" if "i < length ?is" for i
    using that row2_all [OF wfb g2, of i] by (simp add: n) (simp add: b view_def)
  have frac: "frac2 ar b i = frac2 ar a (?is ! i)" if "i < length ?is" for i
  proof -
    have "frac2 ar b i = map (percent_mito (mito_genes b)) (X b) ! i"
      using that frac2_all [OF wfb g2, of i] by (simp add: n)
    also have "\<dots> = map (frac2 ar a) ?is ! i"
      unfolding b by (simp only: percent_mito_view)
    finally show ?thesis
      using that by simp
  qed
  have few: "int (count_pos (X b ! i)) < thr_n_genes ar" if "i < length ?is" for i
  proof -
    have mem: "?is ! i \<in> set ?is"
      using that by simp
    then have "?is ! i < length (X a)" "int (count_pos (X a ! (?is ! i))) < thr_n_genes ar"
      by (simp_all add: cells5_filter)
    moreover have "X b ! i = row2 ar a (?is ! i)"
      using that by (simp add: b view_def)
    ultimately show ?thesis
      using count_pos_row2_le [OF assms(1), of "?is ! i" ar] by simp
  qed
  have low: "np_less (frac2 ar b i) (thr_pct_mito ar)" if "i < length ?is" for i
  proof -
    have "?is ! i \<in> set ?is"
      using that by simp
    then have "np_less (frac2 ar a (?is ! i)) (thr_pct_mito ar)"
      by (simp add: cells5_filter)
    then show ?thesis
      by (simp add: frac [OF that])
  qed
  have c4: "cells4 ar b = [0..<length ?is]"
    unfolding cells4_def [of ar b] c1 n(1) using few by (intro filter_all) simp
  have c5: "cells5 ar b = [0..<length ?is]"
    unfolding cells5_def [of ar b] c4 using low by (intro filter_all) simp
  have "X (view ar b [0..<length ?is]) = X b"
    using row by (intro nth_equalityI) (simp_all add: view_def b)
  moreover have "obs_names (view ar b [0..<length ?is]) = obs_names b"
    using n(2) by (intro nth_equalityI) (simp_all add: view_def)
  moreover have "var_names (view ar b [0..<length ?is]) = var_names b"
    unfolding g2 view_def by (intro nth_equalityI) simp_all
  moreover have "obs_percent_mito (view ar b [0..<length ?is]) = obs_percent_mito b"
  proof -
    have "map (frac2 ar b) [0..<length ?is] = map (frac2 ar a) ?is"
      using frac by (intro nth_equalityI) simp_all
    then show ?thesis
      by (simp add: view_def b)
  qed
  moreover have "obs_n_counts (view ar b [0..<length ?is]) = obs_n_counts b"
  proof -
    have "map (\<lambda>i. sum_list (row2 ar b i)) [0..<length ?is]
          = map (\<lambda>i. sum_list (row2 ar a i)) ?is"
      using row by (intro nth_equalityI) simp_all
    then show ?thesis
      by (simp add: view_def b)
  qed
  moreover have "filter_engine ar b = Inr (view ar b [0..<length ?is])"
    using filter_engine_view [OF wfb, of ar] by (simp only: c5)
  ultimately show ?thesis
    by blast
qed

theorem filter_engine_twice_witness:
  "wf_anndata idem_once \<and> filter_engine idem_args idem_once = Inr idem_twice \<and>
   list_all (\<lambda>r. thr_min_genes idem_args \<le> int (count_pos r)) (X idem_twice) \<and>
   list_all (\<lambda>n. thr_min_cells idem_args \<le> int n)
     (count_pos_axis0 (length (var_names idem_twice)) (X idem_twice)) \<and>
   filter_engine idem_args idem_twice = Inr idem_twice"
proof -
  have h1: "wf_anndata idem_once"
    by (simp add: wf_anndata_def idem_once_def)
  have h2: "filter_engine idem_args idem_once = Inr idem_twice"
    by code_simp
  have h3: "list_all (\<lambda>r. thr_min_genes idem_args \<le> int (count_pos r)) (X idem_twice)"
    by code_simp
  have h4: "list_all (\<lambda>n. thr_min_cells idem_args \<le> int n)
              (count_pos_axis0 (length (var_names idem_twice)) (X idem_twice))"
    by code_simp
  have "filter_engine idem_args idem_twice = Inr idem_twice"
    by code_simp
  with filter_engine_twice [OF h1 h2 h3 h4] h1 h2 h3 h4 show ?thesis
    by simp
qed

end
